theory Spec2Isabelle
  imports Main
begin

section \<open>Symbol maps, as the map handler sees them\<close>

text \<open>
  Modelled from the spec: the \<^verbatim>\<open>SymbolMap\<close> interface of \<^verbatim>\<open>symbol_map.js\<close>, which is not
  among the sources. Section 4.1 gives its contract: \<^verbatim>\<open>getName\<close>, \<^verbatim>\<open>contains\<close> (a boolean),
  \<^verbatim>\<open>lookup\<close> (a value or absent) and \<^verbatim>\<open>parse\<close> (a result, absent, or a raised structural
  failure). The four methods are the fields of a record, so every theorem below holds for
  whatever the methods compute. \<open>'i\<close> is \<^verbatim>\<open>ParseInput\<close>, \<open>'r\<close> is \<^verbatim>\<open>ParseResult\<close>, \<open>'v\<close> is
  the type \<^verbatim>\<open>T\<close> of looked-up values and \<open>'e\<close> the values a \<^verbatim>\<open>parse\<close> may throw.
  A \<^verbatim>\<open>null\<close> or \<^verbatim>\<open>undefined\<close> result is \<open>None\<close>.
\<close>

record ('i, 'e, 'r, 'v) SymbolMap =
  getName :: string
  contains :: "string \<Rightarrow> bool"
  lookup :: "string \<Rightarrow> 'v option"
  parse :: "'i \<Rightarrow> 'e + 'r option"

text \<open>
  Symbol maps are objects: the registry and the chains hold references to them.
  A reference is an address, and the objects are read through a heap, a total function
  since a JavaScript reference always designates an object. Nothing in
  \<^verbatim>\<open>map_handler.ts\<close> writes to a symbol map, so the heap is an argument and never a result.
\<close>

type_synonym ref = nat

type_synonym ('i, 'e, 'r, 'v) heap = "ref \<Rightarrow> ('i, 'e, 'r, 'v) SymbolMap"

text \<open>
  The calls a query makes on member maps, in the order it makes them: the record of which
  maps were consulted.
\<close>

datatype 'i call =
    Call_contains ref string
  | Call_lookup ref string
  | Call_parse ref 'i

text \<open>
  Modelled from the spec: the type \<^verbatim>\<open>Configurations\<close> of \<^verbatim>\<open>types.js\<close>, which is not among
  the sources; the four fixed categories that \<^verbatim>\<open>configure\<close> and \<^verbatim>\<open>append\<close> name.
\<close>

datatype Configurations = character | delimiter | macro | environment

text \<open>
  What a statement of \<^verbatim>\<open>map_handler.ts\<close> can throw: the \<^verbatim>\<open>TypeError\<close> of calling a method
  on \<^verbatim>\<open>undefined\<close> (\<^verbatim>\<open>this.configurations.get(kind)\<close> for a key that is not set), or the
  value a member map's \<^verbatim>\<open>parse\<close> threw.
\<close>

datatype 'e exception = TypeError | Thrown 'e

section \<open>Class Configuration\<close>

record Configuration =
  configuration :: "ref list"

text \<open>
  The JavaScript test \<^verbatim>\<open>if (result)\<close> on a parse result. \<^verbatim>\<open>ParseResult\<close> is declared in
  \<^verbatim>\<open>types.js\<close>, not among the sources, so which of its values are truthy is the parameter
  \<open>truthy\<close>; \<^verbatim>\<open>null\<close> and \<^verbatim>\<open>undefined\<close> are falsy.
\<close>

definition is_truthy :: "('r \<Rightarrow> bool) \<Rightarrow> 'r option \<Rightarrow> bool" where
  "is_truthy truthy result = (case result of None \<Rightarrow> False | Some v \<Rightarrow> truthy v)"

text \<open>
  An outcome of a \<^verbatim>\<open>parse\<close> is absent when the call returned and its result fails that
  test: the outcome that makes \<^verbatim>\<open>Configuration.parse\<close> go on to the next map.
\<close>

definition absent :: "('r \<Rightarrow> bool) \<Rightarrow> 'e + 'r option \<Rightarrow> bool" where
  "absent truthy outcome =
     (case outcome of Inl e \<Rightarrow> False | Inr result \<Rightarrow> \<not> is_truthy truthy result)"

text \<open>
  \<^verbatim>\<open>parse\<close>: the loop over \<^verbatim>\<open>this.configuration\<close>. An exception of \<^verbatim>\<open>map.parse\<close> leaves the
  loop at once; a truthy result is returned; otherwise the next map is tried, and
  \<^verbatim>\<open>null\<close> is returned after the last.
\<close>

fun parse_loop ::
  "('r \<Rightarrow> bool) \<Rightarrow> ('i, 'e, 'r, 'v) heap \<Rightarrow> ref list \<Rightarrow> 'i \<Rightarrow> ('e + 'r option) \<times> 'i call list"
where
  "parse_loop truthy H [] input = (Inr None, [])"
| "parse_loop truthy H (m # ms) input =
     (case parse (H m) input of
        Inl e \<Rightarrow> (Inl e, [Call_parse m input])
      | Inr result \<Rightarrow>
          if is_truthy truthy result then (Inr result, [Call_parse m input])
          else (case parse_loop truthy H ms input of
                  (r, cs) \<Rightarrow> (r, Call_parse m input # cs)))"

definition Configuration_parse ::
  "('r \<Rightarrow> bool) \<Rightarrow> ('i, 'e, 'r, 'v) heap \<Rightarrow> Configuration \<Rightarrow> 'i \<Rightarrow> ('e + 'r option) \<times> 'i call list"
where
  "Configuration_parse truthy H this input = parse_loop truthy H (configuration this) input"

text \<open>\<^verbatim>\<open>applicable\<close>: the first map of the chain that contains the symbol, or \<^verbatim>\<open>null\<close>.\<close>

fun applicable_loop ::
  "('i, 'e, 'r, 'v) heap \<Rightarrow> ref list \<Rightarrow> string \<Rightarrow> ref option \<times> 'i call list"
where
  "applicable_loop H [] symbol = (None, [])"
| "applicable_loop H (m # ms) symbol =
     (if contains (H m) symbol then (Some m, [Call_contains m symbol])
      else (case applicable_loop H ms symbol of
              (r, cs) \<Rightarrow> (r, Call_contains m symbol # cs)))"

definition applicable ::
  "('i, 'e, 'r, 'v) heap \<Rightarrow> Configuration \<Rightarrow> string \<Rightarrow> ref option \<times> 'i call list"
where
  "applicable H this symbol = applicable_loop H (configuration this) symbol"

text \<open>\<^verbatim>\<open>lookup\<close>: \<^verbatim>\<open>map ? map.lookup(symbol) : null\<close>.\<close>

definition Configuration_lookup ::
  "('i, 'e, 'r, 'v) heap \<Rightarrow> Configuration \<Rightarrow> string \<Rightarrow> 'v option \<times> 'i call list"
where
  "Configuration_lookup H this symbol =
     (case applicable H this symbol of
        (None, cs) \<Rightarrow> (None, cs)
      | (Some m, cs) \<Rightarrow> (lookup (H m) symbol, cs @ [Call_lookup m symbol]))"

text \<open>\<^verbatim>\<open>contains\<close>: \<^verbatim>\<open>this.applicable(symbol) ? true : false\<close>.\<close>

definition Configuration_contains ::
  "('i, 'e, 'r, 'v) heap \<Rightarrow> Configuration \<Rightarrow> string \<Rightarrow> bool \<times> 'i call list"
where
  "Configuration_contains H this symbol =
     (case applicable H this symbol of
        (None, cs) \<Rightarrow> (False, cs)
      | (Some m, cs) \<Rightarrow> (True, cs))"

text \<open>
  \<^verbatim>\<open>warn\<close> writes one line to the console; the lines written are returned, in order, by
  every operation that can warn.
\<close>

definition warn :: "string \<Rightarrow> string list" where
  "warn message = [''TexParser Warning: '' @ message]"

section \<open>Class MapHandler\<close>

record MapHandler =
  configurations :: "Configurations \<rightharpoonup> Configuration"
  maps :: "string \<rightharpoonup> ref"

definition register :: "('i, 'e, 'r, 'v) heap \<Rightarrow> MapHandler \<Rightarrow> ref \<Rightarrow> MapHandler" where
  "register H this m = this\<lparr>maps := (maps this)(getName (H m) \<mapsto> m)\<rparr>"

definition getMap :: "MapHandler \<Rightarrow> string \<Rightarrow> ref option" where
  "getMap this name = maps this name"

text \<open>
  \<^verbatim>\<open>Configuration.add\<close> resolves the name with \<^verbatim>\<open>MapHandler.getInstance().getMap(name)\<close>. The
  constructor of \<^verbatim>\<open>MapHandler\<close> is private, so the handler whose method is running is the
  singleton that \<^verbatim>\<open>getInstance\<close> returns: it is the argument \<open>handler\<close>. (The one call made
  while the singleton is not yet stored, \<^verbatim>\<open>configure({})\<close> in the constructor, adds no name.)
\<close>

definition Configuration_add ::
  "MapHandler \<Rightarrow> Configuration \<Rightarrow> string \<Rightarrow> Configuration \<times> string list"
where
  "Configuration_add handler this name =
     (case getMap handler name of
        None \<Rightarrow> (this, warn (''Configuration '' @ name @ '' not found! Omitted.''))
      | Some m \<Rightarrow> (this\<lparr>configuration := configuration this @ [m]\<rparr>, []))"

text \<open>The constructor of \<^verbatim>\<open>Configuration\<close>: \<^verbatim>\<open>add\<close> for every name, from the empty chain.\<close>

fun add_all ::
  "MapHandler \<Rightarrow> Configuration \<Rightarrow> string list \<Rightarrow> Configuration \<times> string list"
where
  "add_all handler this [] = (this, [])"
| "add_all handler this (name # names) =
     (case Configuration_add handler this name of
        (this', w) \<Rightarrow>
          (case add_all handler this' names of
             (this'', ws) \<Rightarrow> (this'', w @ ws)))"

definition Configuration_constructor ::
  "MapHandler \<Rightarrow> string list \<Rightarrow> Configuration \<times> string list"
where
  "Configuration_constructor handler names = add_all handler \<lparr>configuration = []\<rparr> names"

text \<open>
  The private methods \<^verbatim>\<open>configure_\<close> and \<^verbatim>\<open>append_\<close> are \<open>configure_private\<close> and
  \<open>append_private\<close> here (a name cannot end with an underscore).
  The argument of \<^verbatim>\<open>configure\<close> and \<^verbatim>\<open>append\<close> has an optional list of names for each
  category: a partial map. \<^verbatim>\<open>config || []\<close> is the list, or the empty one.
\<close>

definition configure_private ::
  "MapHandler \<Rightarrow> string list option \<Rightarrow> Configurations \<Rightarrow> MapHandler \<times> string list"
where
  "configure_private this config name =
     (case Configuration_constructor this (case config of None \<Rightarrow> [] | Some ns \<Rightarrow> ns) of
        (c, w) \<Rightarrow> (this\<lparr>configurations := (configurations this)(name \<mapsto> c)\<rparr>, w))"

definition configure ::
  "MapHandler \<Rightarrow> (Configurations \<rightharpoonup> string list) \<Rightarrow> MapHandler \<times> string list"
where
  "configure this config =
     (case configure_private this (config delimiter) delimiter of (t1, w1) \<Rightarrow>
      case configure_private t1 (config character) character of (t2, w2) \<Rightarrow>
      case configure_private t2 (config macro) macro of (t3, w3) \<Rightarrow>
      case configure_private t3 (config environment) environment of (t4, w4) \<Rightarrow>
        (t4, w1 @ w2 @ w3 @ w4))"

text \<open>
  \<^verbatim>\<open>append_\<close>: \<^verbatim>\<open>this.configurations.get(name).add(map)\<close> for every name of the list. The
  \<^verbatim>\<open>get\<close> is evaluated in every iteration and throws a \<^verbatim>\<open>TypeError\<close> when the category has
  no Configuration; with an empty list it is never evaluated.
\<close>

fun append_loop ::
  "MapHandler \<Rightarrow> Configurations \<Rightarrow> string list \<Rightarrow> 'e exception + MapHandler \<times> string list"
where
  "append_loop this name [] = Inr (this, [])"
| "append_loop this name (m # ms) =
     (case configurations this name of
        None \<Rightarrow> Inl TypeError
      | Some c \<Rightarrow>
          (case Configuration_add this c m of
             (c', w) \<Rightarrow>
               (case append_loop (this\<lparr>configurations := (configurations this)(name \<mapsto> c')\<rparr>) name ms of
                  Inl e \<Rightarrow> Inl e
                | Inr (this', ws) \<Rightarrow> Inr (this', w @ ws))))"

definition append_private ::
  "MapHandler \<Rightarrow> string list option \<Rightarrow> Configurations \<Rightarrow> 'e exception + MapHandler \<times> string list"
where
  "append_private this config name =
     (case config of
        None \<Rightarrow> Inr (this, [])
      | Some ns \<Rightarrow> append_loop this name ns)"

definition MapHandler_append ::
  "MapHandler \<Rightarrow> (Configurations \<rightharpoonup> string list) \<Rightarrow> 'e exception + MapHandler \<times> string list"
where
  "MapHandler_append this config =
     (case append_private this (config delimiter) delimiter of
        Inl e \<Rightarrow> Inl e
      | Inr (t1, w1) \<Rightarrow>
     (case append_private t1 (config character) character of
        Inl e \<Rightarrow> Inl e
      | Inr (t2, w2) \<Rightarrow>
     (case append_private t2 (config macro) macro of
        Inl e \<Rightarrow> Inl e
      | Inr (t3, w3) \<Rightarrow>
     (case append_private t3 (config environment) environment of
        Inl e \<Rightarrow> Inl e
      | Inr (t4, w4) \<Rightarrow> Inr (t4, w1 @ w2 @ w3 @ w4)))))"

text \<open>
  The three queries: \<^verbatim>\<open>this.configurations.get(kind)\<close>, then the method of the
  Configuration. An exception of the Configuration's method passes through.
\<close>

definition MapHandler_parse ::
  "('r \<Rightarrow> bool) \<Rightarrow> ('i, 'e, 'r, 'v) heap \<Rightarrow> MapHandler \<Rightarrow> Configurations \<Rightarrow> 'i \<Rightarrow>
   ('e exception + 'r option) \<times> 'i call list"
where
  "MapHandler_parse truthy H this kind input =
     (case configurations this kind of
        None \<Rightarrow> (Inl TypeError, [])
      | Some c \<Rightarrow>
          (case Configuration_parse truthy H c input of
             (Inl e, cs) \<Rightarrow> (Inl (Thrown e), cs)
           | (Inr result, cs) \<Rightarrow> (Inr result, cs)))"

definition MapHandler_lookup ::
  "('i, 'e, 'r, 'v) heap \<Rightarrow> MapHandler \<Rightarrow> Configurations \<Rightarrow> string \<Rightarrow>
   ('e exception + 'v option) \<times> 'i call list"
where
  "MapHandler_lookup H this kind symbol =
     (case configurations this kind of
        None \<Rightarrow> (Inl TypeError, [])
      | Some c \<Rightarrow> (case Configuration_lookup H c symbol of (v, cs) \<Rightarrow> (Inr v, cs)))"

definition MapHandler_contains ::
  "('i, 'e, 'r, 'v) heap \<Rightarrow> MapHandler \<Rightarrow> Configurations \<Rightarrow> string \<Rightarrow>
   ('e exception + bool) \<times> 'i call list"
where
  "MapHandler_contains H this kind symbol =
     (case configurations this kind of
        None \<Rightarrow> (Inl TypeError, [])
      | Some c \<Rightarrow> (case Configuration_contains H c symbol of (b, cs) \<Rightarrow> (Inr b, cs)))"

text \<open>
  The constructor: the two field initialisers (\<^verbatim>\<open>new Map()\<close> twice), then
  \<^verbatim>\<open>this.configure({})\<close>. \<^verbatim>\<open>getInstance\<close> creates the singleton when the static field
  \<^verbatim>\<open>instance\<close> is not set, and returns it with the new value of the field.
\<close>

definition MapHandler_constructor :: MapHandler where
  "MapHandler_constructor =
     fst (configure \<lparr>configurations = Map.empty, maps = Map.empty\<rparr> Map.empty)"

definition getInstance :: "MapHandler option \<Rightarrow> MapHandler \<times> MapHandler option" where
  "getInstance static_instance =
     (case static_instance of
        None \<Rightarrow> (MapHandler_constructor, Some MapHandler_constructor)
      | Some h \<Rightarrow> (h, Some h))"

text \<open>
  The lifetime of the singleton: it is constructed, and then \<^verbatim>\<open>register\<close>, \<^verbatim>\<open>configure\<close> and
  \<^verbatim>\<open>append\<close> are called on it in any order, with any arguments. (The three queries and
  \<^verbatim>\<open>getMap\<close> change nothing.) A call of \<^verbatim>\<open>append\<close> that throws ends the sequence.
\<close>

inductive reachable :: "('i, 'e, 'r, 'v) heap \<Rightarrow> MapHandler \<Rightarrow> bool"
  for H :: "('i, 'e, 'r, 'v) heap"
where
  constructed: "reachable H MapHandler_constructor"
| registered: "reachable H h \<Longrightarrow> reachable H (register H h m)"
| configured: "reachable H h \<Longrightarrow> reachable H (fst (configure h config))"
| appended: "reachable H h \<Longrightarrow>
     (MapHandler_append h config :: 'e exception + MapHandler \<times> string list) = Inr (h', w) \<Longrightarrow>
     reachable H h'"

code_pred reachable .

section \<open>The node classes of semantics.ts\<close>

text \<open>
  Modelled from the spec: the type \<^verbatim>\<open>PropertyList\<close> of \<^verbatim>\<open>../Node\<close>, which is not among the
  sources: a table from property names to values. The values are the ones
  \<^verbatim>\<open>semantics.ts\<close> writes (\<^verbatim>\<open>null\<close>, strings, booleans) and numbers.
\<close>

datatype Property = P_null | P_bool bool | P_string string | P_number int

type_synonym PropertyList = "string \<rightharpoonup> Property"

text \<open>
  Modelled from the spec: the abstract classes \<^verbatim>\<open>AMmlNode\<close> and \<^verbatim>\<open>AMmlBaseNode\<close> of
  \<^verbatim>\<open>../MmlNode\<close>, which are not among the sources. What the three classes of
  \<^verbatim>\<open>semantics.ts\<close> take from them is a parameter: the static table \<^verbatim>\<open>defaults\<close>, the two
  getters and the initial value of the field \<^verbatim>\<open>properties\<close>.
\<close>

record AbstractClass =
  static_defaults :: PropertyList
  get_notParent :: bool
  get_linebreakContainer :: bool
  init_properties :: PropertyList

datatype MmlClass = MmlSemantics | MmlAnnotationXML | MmlAnnotation

text \<open>
  In the functions below \<open>N\<close> is \<^verbatim>\<open>AMmlNode\<close> and \<open>B\<close> is \<^verbatim>\<open>AMmlBaseNode\<close>.
  \<^verbatim>\<open>static defaults\<close>: an object spread copies the entries of the superclass's table, and
  the entries written after it are set on the copy. \<^verbatim>\<open>MmlAnnotation\<close> declares no table
  and inherits the static member of \<^verbatim>\<open>MmlAnnotationXML\<close>.
\<close>

definition MmlSemantics_defaults :: "AbstractClass \<Rightarrow> PropertyList" where
  "MmlSemantics_defaults B =
     (static_defaults B)(''definitionUrl'' \<mapsto> P_null, ''encoding'' \<mapsto> P_null)"

definition MmlAnnotationXML_defaults :: "AbstractClass \<Rightarrow> PropertyList" where
  "MmlAnnotationXML_defaults N =
     (static_defaults N)(''definitionUrl'' \<mapsto> P_null, ''encoding'' \<mapsto> P_null,
        ''cd'' \<mapsto> P_string ''mathmlkeys'', ''name'' \<mapsto> P_string [],
        ''src'' \<mapsto> P_null)"

fun defaults :: "AbstractClass \<Rightarrow> AbstractClass \<Rightarrow> MmlClass \<Rightarrow> PropertyList" where
  "defaults N B MmlSemantics = MmlSemantics_defaults B"
| "defaults N B MmlAnnotationXML = MmlAnnotationXML_defaults N"
| "defaults N B MmlAnnotation = MmlAnnotationXML_defaults N"

text \<open>
  The getters: a class that does not declare one inherits it, \<^verbatim>\<open>MmlAnnotation\<close> from
  \<^verbatim>\<open>MmlAnnotationXML\<close>, which inherits \<^verbatim>\<open>notParent\<close> from \<^verbatim>\<open>AMmlNode\<close>.
\<close>

fun kind :: "MmlClass \<Rightarrow> string" where
  "kind MmlSemantics = ''semantics''"
| "kind MmlAnnotationXML = ''annotation-xml''"
| "kind MmlAnnotation = ''annotation-xml''"

fun notParent :: "AbstractClass \<Rightarrow> AbstractClass \<Rightarrow> MmlClass \<Rightarrow> bool" where
  "notParent N B MmlSemantics = True"
| "notParent N B MmlAnnotationXML = get_notParent N"
| "notParent N B MmlAnnotation = get_notParent N"

fun linebreakContainer :: "AbstractClass \<Rightarrow> AbstractClass \<Rightarrow> MmlClass \<Rightarrow> bool" where
  "linebreakContainer N B MmlSemantics = get_linebreakContainer B"
| "linebreakContainer N B MmlAnnotationXML = True"
| "linebreakContainer N B MmlAnnotation = True"

text \<open>
  The field \<^verbatim>\<open>properties\<close> after construction: \<^verbatim>\<open>MmlAnnotation\<close> assigns it the object
  \<^verbatim>\<open>{isChars: true}\<close>; the two other classes leave what their superclass set.
\<close>

fun properties_initialiser :: "AbstractClass \<Rightarrow> AbstractClass \<Rightarrow> MmlClass \<Rightarrow> PropertyList" where
  "properties_initialiser N B MmlSemantics = init_properties B"
| "properties_initialiser N B MmlAnnotationXML = init_properties N"
| "properties_initialiser N B MmlAnnotation = [''isChars'' \<mapsto> P_bool True]"

text \<open>
  Tables are objects, and an instance refers to its tables: a store maps the addresses
  allocated so far (those below \<open>next_addr\<close>) to tables. Loading the module allocates the
  two static tables; \<^verbatim>\<open>MmlAnnotation.defaults\<close> is the object \<^verbatim>\<open>MmlAnnotationXML.defaults\<close>.
\<close>

type_synonym addr = nat

record store =
  tables :: "addr \<Rightarrow> PropertyList"
  next_addr :: addr

definition alloc :: "store \<Rightarrow> PropertyList \<Rightarrow> addr \<times> store" where
  "alloc st t =
     (next_addr st, st\<lparr>tables := (tables st)(next_addr st := t), next_addr := Suc (next_addr st)\<rparr>)"

fun defaults_addr :: "MmlClass \<Rightarrow> addr" where
  "defaults_addr MmlSemantics = 0"
| "defaults_addr MmlAnnotationXML = Suc 0"
| "defaults_addr MmlAnnotation = Suc 0"

definition module_store :: "AbstractClass \<Rightarrow> AbstractClass \<Rightarrow> store" where
  "module_store N B =
     \<lparr>tables = (\<lambda>a. Map.empty)
        (0 := defaults N B MmlSemantics, Suc 0 := defaults N B MmlAnnotationXML),
      next_addr = Suc (Suc 0)\<rparr>"

text \<open>
  Modelled from the spec: the constructor of the node classes, inherited from
  \<^verbatim>\<open>../MmlNode\<close>, which is not among the sources. Section 4.4: instantiating a node copies
  the kind's resolved default table into a fresh, mutable per-instance property bag, and a
  kind may add instance-level properties not present in the default table. So an
  instance has a fresh copy of its class's static table, and the fresh object that the
  field \<^verbatim>\<open>properties\<close> is assigned; its property bag is the two read together, the
  instance's own entries over the defaults. Mutating the bag sets one entry of one of
  the instance's two tables.
\<close>

record MmlNode =
  node_class :: MmlClass
  default_copy :: addr
  properties :: addr

definition new_node ::
  "AbstractClass \<Rightarrow> AbstractClass \<Rightarrow> store \<Rightarrow> MmlClass \<Rightarrow> MmlNode \<times> store"
where
  "new_node N B st c =
     (case alloc st (tables st (defaults_addr c)) of
        (d, st1) \<Rightarrow>
          (case alloc st1 (properties_initialiser N B c) of
             (p, st2) \<Rightarrow> (\<lparr>node_class = c, default_copy = d, properties = p\<rparr>, st2)))"

definition property_bag :: "store \<Rightarrow> MmlNode \<Rightarrow> PropertyList" where
  "property_bag st n = tables st (default_copy n) ++ tables st (properties n)"

definition set_entry :: "store \<Rightarrow> addr \<Rightarrow> string \<Rightarrow> Property \<Rightarrow> store" where
  "set_entry st a k v = st\<lparr>tables := (tables st)(a := (tables st a)(k \<mapsto> v))\<rparr>"

section \<open>Example objects\<close>

text \<open>
  Four symbol maps for the concrete instances below. Map 0, named a, contains the symbol x
  but neither looks it up nor parses it; map 1, named b, contains, looks up and parses x;
  map 2, named c, handles every symbol; map 3 is a second object named c, whose
  \<^verbatim>\<open>parse\<close> throws. Parse results are strings, of which JavaScript takes the empty one
  as falsy. \<open>example_handler\<close> is the singleton after maps 0, 1 and 2 were registered;
  \<open>example_handler_raising\<close> is that handler after map 3 was registered too and the
  character category was configured with the names a and c. \<open>example_base\<close> stands for
  both abstract node classes.
\<close>

definition example_heap :: "(string, string, string, string) heap" where
  "example_heap r =
     (if r = 0 then
        \<lparr>getName = ''a'', contains = (\<lambda>s. s = ''x''), lookup = (\<lambda>s. None),
         parse = (\<lambda>i. Inr None)\<rparr>
      else if r = 1 then
        \<lparr>getName = ''b'', contains = (\<lambda>s. s = ''x''), lookup = (\<lambda>s. Some ''from b''),
         parse = (\<lambda>i. Inr (Some ''parsed by b''))\<rparr>
      else if r = 2 then
        \<lparr>getName = ''c'', contains = (\<lambda>s. True), lookup = (\<lambda>s. Some ''from c''),
         parse = (\<lambda>i. Inr (Some ''parsed by c''))\<rparr>
      else
        \<lparr>getName = ''c'', contains = (\<lambda>s. True), lookup = (\<lambda>s. Some ''from the new c''),
         parse = (\<lambda>i. Inl ''malformed'')\<rparr>)"

definition example_truthy :: "string \<Rightarrow> bool" where
  "example_truthy s = (s \<noteq> [])"

definition example_handler :: MapHandler where
  "example_handler =
     register example_heap (register example_heap (register example_heap MapHandler_constructor 0) 1) 2"

definition example_handler_raising :: MapHandler where
  "example_handler_raising =
     fst (configure (register example_heap example_handler 3) [character \<mapsto> [''a'', ''c'']])"

definition example_base :: AbstractClass where
  "example_base =
     \<lparr>static_defaults = [''mathcolor'' \<mapsto> P_string ''inherit''],
      get_notParent = False, get_linebreakContainer = False,
      init_properties = Map.empty\<rparr>"

section \<open>Lookup: the first containing map decides\<close>

lemma applicable_loop_fst:
  "fst (applicable_loop H ms symbol) = find (\<lambda>m. contains (H m) symbol) ms"
  by (induction ms) (auto split: prod.splits)

lemma applicable_loop_snd:
  "snd (applicable_loop H ms symbol) =
     map (\<lambda>m. Call_contains m symbol) (takeWhile (\<lambda>m. \<not> contains (H m) symbol) ms) @
     (case find (\<lambda>m. contains (H m) symbol) ms of
        None \<Rightarrow> []
      | Some m \<Rightarrow> [Call_contains m symbol])"
  by (induction ms) (auto split: prod.splits)

text \<open>
  Claim C1. \<^verbatim>\<open>Configuration.lookup(S)\<close> returns the \<^verbatim>\<open>lookup(S)\<close> of the first map in chain
  order whose \<^verbatim>\<open>contains(S)\<close> is true, whatever that lookup gives (absent too), and absent
  when no map contains \<open>S\<close>. The calls it makes are \<^verbatim>\<open>contains\<close> on the maps before the
  first containing one, then \<^verbatim>\<open>contains\<close> and \<^verbatim>\<open>lookup\<close> on that one: no map after it is
  consulted.
\<close>

theorem Configuration_lookup_first_match:
  "fst (Configuration_lookup H this S) =
     (case find (\<lambda>m. contains (H m) S) (configuration this) of
        None \<Rightarrow> None
      | Some m \<Rightarrow> lookup (H m) S)
   \<and> snd (Configuration_lookup H this S) =
     map (\<lambda>m. Call_contains m S) (takeWhile (\<lambda>m. \<not> contains (H m) S) (configuration this)) @
     (case find (\<lambda>m. contains (H m) S) (configuration this) of
        None \<Rightarrow> []
      | Some m \<Rightarrow> [Call_contains m S, Call_lookup m S])"
proof -
  let ?a = "applicable_loop H (configuration this) S"
  have f: "fst ?a = find (\<lambda>m. contains (H m) S) (configuration this)"
    by (rule applicable_loop_fst)
  have s: "snd ?a =
     map (\<lambda>m. Call_contains m S) (takeWhile (\<lambda>m. \<not> contains (H m) S) (configuration this)) @
     (case find (\<lambda>m. contains (H m) S) (configuration this) of
        None \<Rightarrow> []
      | Some m \<Rightarrow> [Call_contains m S])"
    by (rule applicable_loop_snd)
  show ?thesis
  proof (cases "find (\<lambda>m. contains (H m) S) (configuration this)")
    case None
    with f s have "?a = (None,
        map (\<lambda>m. Call_contains m S) (takeWhile (\<lambda>m. \<not> contains (H m) S) (configuration this)))"
      by (cases ?a) simp
    with None show ?thesis
      by (simp add: Configuration_lookup_def applicable_def)
  next
    case (Some m)
    with f s have "?a = (Some m,
        map (\<lambda>m. Call_contains m S) (takeWhile (\<lambda>m. \<not> contains (H m) S) (configuration this))
        @ [Call_contains m S])"
      by (cases ?a) simp
    with Some show ?thesis
      by (simp add: Configuration_lookup_def applicable_def)
  qed
qed

section \<open>Parse: the first capable map decides\<close>

lemma parse_loop_Cons:
  "parse_loop truthy H (m # ms) input =
     (if absent truthy (parse (H m) input)
      then (fst (parse_loop truthy H ms input), Call_parse m input # snd (parse_loop truthy H ms input))
      else (parse (H m) input, [Call_parse m input]))"
  by (cases "parse (H m) input") (simp_all add: absent_def split: prod.splits)

lemma parse_loop_fst:
  "fst (parse_loop truthy H ms input) =
     (case find (\<lambda>m. \<not> absent truthy (parse (H m) input)) ms of
        None \<Rightarrow> Inr None
      | Some m \<Rightarrow> parse (H m) input)"
  by (induction ms) (simp_all add: parse_loop_Cons del: parse_loop.simps(2))

lemma parse_loop_snd:
  "snd (parse_loop truthy H ms input) =
     map (\<lambda>m. Call_parse m input) (takeWhile (\<lambda>m. absent truthy (parse (H m) input)) ms) @
     (case find (\<lambda>m. \<not> absent truthy (parse (H m) input)) ms of
        None \<Rightarrow> []
      | Some m \<Rightarrow> [Call_parse m input])"
  by (induction ms) (simp_all add: parse_loop_Cons del: parse_loop.simps(2))

lemma absent_parse_loop:
  "absent truthy (fst (parse_loop truthy H ms input)) =
     list_all (\<lambda>m. absent truthy (parse (H m) input)) ms"
proof (induction ms)
  case Nil
  show ?case by (simp add: absent_def is_truthy_def)
next
  case (Cons m ms)
  then show ?case by (simp add: parse_loop_Cons del: parse_loop.simps(2))
qed

text \<open>
  Claim C2. \<^verbatim>\<open>Configuration.parse\<close> returns the outcome of the first map in chain order
  whose \<^verbatim>\<open>parse\<close> is not absent, and \<^verbatim>\<open>null\<close> when there is none; its result is absent
  exactly when the \<^verbatim>\<open>parse\<close> of every map is absent. In particular, on a chain of two
  maps where the first map's \<^verbatim>\<open>parse\<close> is absent and the second's is not, the result is
  the second map's (whether or not the first map contains the symbol).
\<close>

theorem Configuration_parse_first_capable:
  "fst (Configuration_parse truthy H this input) =
     (case find (\<lambda>m. \<not> absent truthy (parse (H m) input)) (configuration this) of
        None \<Rightarrow> Inr None
      | Some m \<Rightarrow> parse (H m) input)
   \<and> absent truthy (fst (Configuration_parse truthy H this input)) =
       list_all (\<lambda>m. absent truthy (parse (H m) input)) (configuration this)
   \<and> (absent truthy (parse (H M1) input) \<longrightarrow> \<not> absent truthy (parse (H M2) input) \<longrightarrow>
        fst (Configuration_parse truthy H \<lparr>configuration = [M1, M2]\<rparr> input) = parse (H M2) input)"
proof -
  have a: "fst (Configuration_parse truthy H this input) =
     (case find (\<lambda>m. \<not> absent truthy (parse (H m) input)) (configuration this) of
        None \<Rightarrow> Inr None
      | Some m \<Rightarrow> parse (H m) input)"
    unfolding Configuration_parse_def by (rule parse_loop_fst)
  have b: "absent truthy (fst (Configuration_parse truthy H this input)) =
       list_all (\<lambda>m. absent truthy (parse (H m) input)) (configuration this)"
    unfolding Configuration_parse_def by (rule absent_parse_loop)
  have c: "absent truthy (parse (H M1) input) \<longrightarrow> \<not> absent truthy (parse (H M2) input) \<longrightarrow>
        fst (Configuration_parse truthy H \<lparr>configuration = [M1, M2]\<rparr> input) = parse (H M2) input"
    by (simp add: Configuration_parse_def parse_loop_fst del: parse_loop.simps)
  from a b c show ?thesis by (intro conjI)
qed

theorem Configuration_parse_first_capable_witness:
  "contains (example_heap 0) ''x'' \<and> contains (example_heap 1) ''x''
   \<and> absent example_truthy (parse (example_heap 0) ''x'')
   \<and> \<not> absent example_truthy (parse (example_heap 1) ''x'')
   \<and> fst (Configuration_parse example_truthy example_heap \<lparr>configuration = [0, 1]\<rparr> ''x'') =
       Inr (Some ''parsed by b'')"
  using Configuration_parse_first_capable
    [of example_truthy example_heap "\<lparr>configuration = [0, 1]\<rparr>" "''x''" 0 1]
  by (simp add: example_heap_def example_truthy_def absent_def is_truthy_def)

section \<open>Chains, configuring and appending\<close>

lemma add_all_maps:
  "maps h = maps h' \<Longrightarrow> add_all h c ns = add_all h' c ns"
  by (induction ns arbitrary: c) (auto simp: Configuration_add_def getMap_def split: prod.splits option.splits)

lemma add_all_Cons_fst:
  "fst (add_all h c (n # ns)) = fst (add_all h (fst (Configuration_add h c n)) ns)"
  by (simp split: prod.splits)

lemma add_all_Cons_snd:
  "snd (add_all h c (n # ns)) =
     snd (Configuration_add h c n) @ snd (add_all h (fst (Configuration_add h c n)) ns)"
  by (simp split: prod.splits)

lemma Configuration_add_fst:
  "configuration (fst (Configuration_add h c n)) =
     configuration c @ (case getMap h n of None \<Rightarrow> [] | Some m \<Rightarrow> [m])"
  by (simp add: Configuration_add_def split: option.splits)

lemma add_all_chain:
  "configuration (fst (add_all h c ns)) =
     configuration c @ concat (map (\<lambda>n. case getMap h n of None \<Rightarrow> [] | Some m \<Rightarrow> [m]) ns)"
proof (induction ns arbitrary: c)
  case Nil
  show ?case by simp
next
  case (Cons n ns)
  show ?case
    by (simp only: add_all_Cons_fst Cons.IH Configuration_add_fst) simp
qed

lemma append_loop_add_all:
  "configurations h k = Some c \<Longrightarrow>
   (append_loop h k ns :: 'e exception + MapHandler \<times> string list) =
     Inr (h\<lparr>configurations := (configurations h)(k \<mapsto> fst (add_all h c ns))\<rparr>, snd (add_all h c ns))"
proof (induction ns arbitrary: h c)
  case Nil
  then show ?case by (simp add: map_upd_triv)
next
  case (Cons n ns)
  obtain c' w where a: "Configuration_add h c n = (c', w)" by (cases "Configuration_add h c n")
  let ?h = "h\<lparr>configurations := (configurations h)(k \<mapsto> c')\<rparr>"
  have m: "add_all ?h c' ns = add_all h c' ns" by (rule add_all_maps) simp
  have "configurations ?h k = Some c'" by simp
  from Cons.IH[OF this] have
    "(append_loop ?h k ns :: 'e exception + MapHandler \<times> string list) =
       Inr (?h\<lparr>configurations := (configurations ?h)(k \<mapsto> fst (add_all h c' ns))\<rparr>,
            snd (add_all h c' ns))"
    unfolding m .
  moreover have
    "?h\<lparr>configurations := (configurations ?h)(k \<mapsto> fst (add_all h c' ns))\<rparr> =
     h\<lparr>configurations := (configurations h)(k \<mapsto> fst (add_all h c' ns))\<rparr>"
    by simp
  ultimately have ih:
    "(append_loop ?h k ns :: 'e exception + MapHandler \<times> string list) =
       Inr (h\<lparr>configurations := (configurations h)(k \<mapsto> fst (add_all h c' ns))\<rparr>,
            snd (add_all h c' ns))"
    by (simp only:)
  have step:
    "(append_loop h k (n # ns) :: 'e exception + MapHandler \<times> string list) =
       (case append_loop ?h k ns of
          Inl e \<Rightarrow> Inl e
        | Inr (this', ws) \<Rightarrow> Inr (this', w @ ws))"
    using Cons.prems a by simp
  have fs: "fst (add_all h c (n # ns)) = fst (add_all h c' ns)"
    by (simp add: add_all_Cons_fst a del: add_all.simps)
  have sn: "snd (add_all h c (n # ns)) = w @ snd (add_all h c' ns)"
    by (simp add: add_all_Cons_snd a del: add_all.simps)
  show ?case
    by (simp only: step ih fs sn sum.case prod.case)
qed


lemma Configuration_constructor_maps:
  "maps h = maps h' \<Longrightarrow> Configuration_constructor h ns = Configuration_constructor h' ns"
  unfolding Configuration_constructor_def by (rule add_all_maps)

lemma configure_private_fst:
  "fst (configure_private h cfg k) =
     h\<lparr>configurations := (configurations h)
        (k \<mapsto> fst (Configuration_constructor h (case cfg of None \<Rightarrow> [] | Some ns \<Rightarrow> ns)))\<rparr>"
  by (simp add: configure_private_def split: prod.splits)

lemma configure_fst:
  "fst (configure h config) =
     fst (configure_private
       (fst (configure_private
         (fst (configure_private
           (fst (configure_private h (config delimiter) delimiter))
           (config character) character))
         (config macro) macro))
       (config environment) environment)"
  by (simp add: configure_def split: prod.splits)

lemma configure_maps: "maps (fst (configure h config)) = maps h"
  by (simp add: configure_fst configure_private_fst)

lemma configure_private_maps: "maps (fst (configure_private h cfg k)) = maps h"
  by (simp add: configure_private_fst)

lemma configure_private_configurations:
  "maps h = maps h0 \<Longrightarrow>
   configurations (fst (configure_private h cfg k)) =
     (configurations h)
       (k \<mapsto> fst (Configuration_constructor h0 (case cfg of None \<Rightarrow> [] | Some ns \<Rightarrow> ns)))"
  using Configuration_constructor_maps[of h h0] by (simp add: configure_private_fst)

lemma configure_configurations:
  "configurations (fst (configure h config)) k =
     Some (fst (Configuration_constructor h (case config k of None \<Rightarrow> [] | Some ns \<Rightarrow> ns)))"
proof -
  let ?h1 = "fst (configure_private h (config delimiter) delimiter)"
  let ?h2 = "fst (configure_private ?h1 (config character) character)"
  let ?h3 = "fst (configure_private ?h2 (config macro) macro)"
  let ?h4 = "fst (configure_private ?h3 (config environment) environment)"
  have m1: "maps ?h1 = maps h" by (rule configure_private_maps)
  have m2: "maps ?h2 = maps h" by (simp only: configure_private_maps)
  have m3: "maps ?h3 = maps h" by (simp only: configure_private_maps)
  have c1: "configurations ?h1 = (configurations h)
      (delimiter \<mapsto> fst (Configuration_constructor h
         (case config delimiter of None \<Rightarrow> [] | Some ns \<Rightarrow> ns)))"
    by (rule configure_private_configurations) simp
  have c2: "configurations ?h2 = (configurations ?h1)
      (character \<mapsto> fst (Configuration_constructor h
         (case config character of None \<Rightarrow> [] | Some ns \<Rightarrow> ns)))"
    by (rule configure_private_configurations) (rule m1)
  have c3: "configurations ?h3 = (configurations ?h2)
      (macro \<mapsto> fst (Configuration_constructor h
         (case config macro of None \<Rightarrow> [] | Some ns \<Rightarrow> ns)))"
    by (rule configure_private_configurations) (rule m2)
  have c4: "configurations ?h4 = (configurations ?h3)
      (environment \<mapsto> fst (Configuration_constructor h
         (case config environment of None \<Rightarrow> [] | Some ns \<Rightarrow> ns)))"
    by (rule configure_private_configurations) (rule m3)
  have "fst (configure h config) = ?h4" by (rule configure_fst)
  then have "configurations (fst (configure h config)) k = configurations ?h4 k" by simp
  also have "\<dots> = Some (fst (Configuration_constructor h
      (case config k of None \<Rightarrow> [] | Some ns \<Rightarrow> ns)))"
    by (cases k) (simp_all only: c4 c3 c2 c1 fun_upd_apply Configurations.distinct if_False if_True refl)
  finally show ?thesis .
qed

lemma append_loop_keeps:
  "(append_loop h k ns :: 'e exception + MapHandler \<times> string list) = Inr (h', w) \<Longrightarrow>
   maps h' = maps h \<and> (configurations h k' \<noteq> None \<longrightarrow> configurations h' k' \<noteq> None)"
proof (induction ns arbitrary: h w)
  case Nil
  then show ?case by simp
next
  case (Cons n ns)
  from Cons.prems obtain c where c: "configurations h k = Some c"
    by (cases "configurations h k") simp_all
  obtain c' w1 where a: "Configuration_add h c n = (c', w1)"
    by (cases "Configuration_add h c n")
  let ?h = "h\<lparr>configurations := (configurations h)(k \<mapsto> c')\<rparr>"
  from Cons.prems c a obtain w2 where
    "(append_loop ?h k ns :: 'e exception + MapHandler \<times> string list) = Inr (h', w2)"
    by (cases "append_loop ?h k ns :: 'e exception + MapHandler \<times> string list") auto
  from Cons.IH[OF this] show ?case by simp
qed

lemma append_private_keeps:
  "(append_private h cfg k :: 'e exception + MapHandler \<times> string list) = Inr (h', w) \<Longrightarrow>
   maps h' = maps h \<and> (configurations h k' \<noteq> None \<longrightarrow> configurations h' k' \<noteq> None)"
  by (cases cfg) (auto simp: append_private_def dest: append_loop_keeps)

lemma append_private_defined:
  "configurations h k = Some c \<Longrightarrow>
   (append_private h cfg k :: 'e exception + MapHandler \<times> string list) =
     Inr (h\<lparr>configurations := (configurations h)
            (k \<mapsto> fst (add_all h c (case cfg of None \<Rightarrow> [] | Some ns \<Rightarrow> ns)))\<rparr>,
          snd (add_all h c (case cfg of None \<Rightarrow> [] | Some ns \<Rightarrow> ns)))"
  by (cases cfg) (simp_all add: append_private_def append_loop_add_all map_upd_triv)


lemma MapHandler_append_keeps:
  assumes "(MapHandler_append h config :: 'e exception + MapHandler \<times> string list) = Inr (h', w)"
  shows "maps h' = maps h \<and> (configurations h k \<noteq> None \<longrightarrow> configurations h' k \<noteq> None)"
proof -
  from assms obtain t1 w1 t2 w2 t3 w3 w4 where
    a1: "(append_private h (config delimiter) delimiter
            :: 'e exception + MapHandler \<times> string list) = Inr (t1, w1)" and
    a2: "(append_private t1 (config character) character
            :: 'e exception + MapHandler \<times> string list) = Inr (t2, w2)" and
    a3: "(append_private t2 (config macro) macro
            :: 'e exception + MapHandler \<times> string list) = Inr (t3, w3)" and
    a4: "(append_private t3 (config environment) environment
            :: 'e exception + MapHandler \<times> string list) = Inr (h', w4)"
    by (auto simp: MapHandler_append_def split: sum.splits prod.splits)
  from append_private_keeps[OF a1, of k] append_private_keeps[OF a2, of k]
    append_private_keeps[OF a3, of k] append_private_keeps[OF a4, of k]
  show ?thesis by simp
qed

lemma append_private_total:
  assumes "\<forall>k. configurations h k \<noteq> None"
  shows "\<exists>h' w. (append_private h cfg k :: 'e exception + MapHandler \<times> string list) = Inr (h', w)
           \<and> (\<forall>k. configurations h' k \<noteq> None)"
proof -
  from assms obtain c where c: "configurations h k = Some c" by auto
  let ?h = "h\<lparr>configurations := (configurations h)
      (k \<mapsto> fst (add_all h c (case cfg of None \<Rightarrow> [] | Some ns \<Rightarrow> ns)))\<rparr>"
  have "(append_private h cfg k :: 'e exception + MapHandler \<times> string list) =
      Inr (?h, snd (add_all h c (case cfg of None \<Rightarrow> [] | Some ns \<Rightarrow> ns)))"
    by (rule append_private_defined[OF c])
  moreover from assms have "\<forall>k. configurations ?h k \<noteq> None" by simp
  ultimately show ?thesis by blast
qed

lemma MapHandler_append_total:
  assumes "\<forall>k. configurations h k \<noteq> None"
  shows "\<exists>h' w. (MapHandler_append h config :: 'e exception + MapHandler \<times> string list) = Inr (h', w)"
proof -
  from append_private_total[OF assms] obtain t1 w1 where
    a1: "(append_private h (config delimiter) delimiter
            :: 'e exception + MapHandler \<times> string list) = Inr (t1, w1)" and
    d1: "\<forall>k. configurations t1 k \<noteq> None" by blast
  from append_private_total[OF d1] obtain t2 w2 where
    a2: "(append_private t1 (config character) character
            :: 'e exception + MapHandler \<times> string list) = Inr (t2, w2)" and
    d2: "\<forall>k. configurations t2 k \<noteq> None" by blast
  from append_private_total[OF d2] obtain t3 w3 where
    a3: "(append_private t2 (config macro) macro
            :: 'e exception + MapHandler \<times> string list) = Inr (t3, w3)" and
    d3: "\<forall>k. configurations t3 k \<noteq> None" by blast
  from append_private_total[OF d3] obtain t4 w4 where
    a4: "(append_private t3 (config environment) environment
            :: 'e exception + MapHandler \<times> string list) = Inr (t4, w4)" by blast
  show ?thesis by (simp add: MapHandler_append_def a1 a2 a3 a4)
qed

lemma reachable_defined: "reachable H h \<Longrightarrow> configurations h k \<noteq> None"
proof (induction arbitrary: k rule: reachable.induct)
  case constructed
  show ?case by (simp add: MapHandler_constructor_def configure_configurations)
next
  case (registered h m)
  then show ?case by (simp add: register_def)
next
  case (configured h config)
  show ?case by (simp add: configure_configurations)
next
  case (appended h config h' w)
  from MapHandler_append_keeps[OF appended.hyps(2), of k] appended.IH[of k]
  show ?case by simp
qed

lemma reachable_names: "reachable H h \<Longrightarrow> maps h n = Some m \<Longrightarrow> getName (H m) = n"
proof (induction arbitrary: n m rule: reachable.induct)
  case constructed
  then show ?case by (simp add: MapHandler_constructor_def configure_maps)
next
  case (registered h m')
  then show ?case by (auto simp: register_def split: if_splits)
next
  case (configured h config)
  then show ?case by (simp add: configure_maps)
next
  case (appended h config h' w)
  from MapHandler_append_keeps[OF appended.hyps(2)] appended.prems appended.IH
  show ?case by simp
qed

lemma append_private_unregistered:
  assumes "configurations h j = Some c" and "getMap h N = None"
  shows "(append_private h (Some [N]) j :: 'e exception + MapHandler \<times> string list) =
           Inr (h, warn (''Configuration '' @ N @ '' not found! Omitted.''))"
  using assms by (simp add: append_private_def Configuration_add_def map_upd_triv)

lemma append_private_None:
  "(append_private h None j :: 'e exception + MapHandler \<times> string list) = Inr (h, [])"
  by (simp add: append_private_def)

lemma MapHandler_append_unregistered:
  assumes "\<forall>j. configurations h j \<noteq> None" and "getMap h N = None"
  shows "(MapHandler_append h [k \<mapsto> [N]] :: 'e exception + MapHandler \<times> string list) =
           Inr (h, warn (''Configuration '' @ N @ '' not found! Omitted.''))"
proof -
  from assms(1) obtain c where c: "configurations h k = Some c" by auto
  have u: "(append_private h (Some [N]) k :: 'e exception + MapHandler \<times> string list) =
           Inr (h, warn (''Configuration '' @ N @ '' not found! Omitted.''))"
    by (rule append_private_unregistered[OF c assms(2)])
  show ?thesis
    by (cases k) (insert u, simp_all add: MapHandler_append_def append_private_None)
qed


lemma example_handler_maps:
  "getMap example_handler ''a'' = Some 0 \<and> getMap example_handler ''b'' = Some 1
   \<and> getMap example_handler ''c'' = Some 2 \<and> getMap example_handler ''foo'' = None"
  by (simp add: example_handler_def getMap_def register_def example_heap_def
        MapHandler_constructor_def configure_maps)

lemma example_handler_reachable: "reachable example_heap example_handler"
  unfolding example_handler_def
  by (rule reachable.registered, rule reachable.registered, rule reachable.registered,
      rule reachable.constructed)

section \<open>Registering again\<close>

lemma example_name3: "getName (example_heap 3) = ''c''"
  by (simp add: example_heap_def)

text \<open>
  Claim C3. \<^verbatim>\<open>register\<close> stores the map under its name and leaves every Configuration as
  it is: the chains keep the instances they resolved before. A later \<^verbatim>\<open>Configuration.add\<close>
  of that name appends the new instance, so a chain to which the name was added before
  and after the registration holds the old instance followed by the new one. No other
  name resolves differently.
\<close>

theorem register_replaces_future_resolutions_only:
  "configurations (register H h m) = configurations h
   \<and> getMap (register H h m) (getName (H m)) = Some m
   \<and> Configuration_add (register H h m) c (getName (H m)) =
       (c\<lparr>configuration := configuration c @ [m]\<rparr>, [])
   \<and> (getMap h (getName (H m)) = Some old \<longrightarrow>
        configuration (fst (Configuration_add (register H h m)
          (fst (Configuration_add h c (getName (H m)))) (getName (H m)))) =
        configuration c @ [old, m])
   \<and> (n \<noteq> getName (H m) \<longrightarrow> getMap (register H h m) n = getMap h n)"
  by (simp add: register_def getMap_def Configuration_add_def)

theorem register_replaces_future_resolutions_only_witness:
  "getMap example_handler (getName (example_heap 3)) = Some 2
   \<and> configuration (fst (Configuration_add (register example_heap example_handler 3)
        (fst (Configuration_add example_handler \<lparr>configuration = [0]\<rparr> ''c'')) ''c'')) = [0, 2, 3]
   \<and> ''b'' \<noteq> getName (example_heap 3)
   \<and> getMap (register example_heap example_handler 3) ''b'' = Some 1"
  using register_replaces_future_resolutions_only
    [of example_heap example_handler 3 "\<lparr>configuration = [0]\<rparr>" 2 "''b''"]
    example_handler_maps
  by (simp add: example_heap_def)

section \<open>Names that are not registered\<close>

text \<open>
  Claim C4. For a name that the map store does not hold, \<^verbatim>\<open>Configuration.add\<close> returns the
  chain as it was and writes one warning to the console; on the singleton, at any point
  of its lifetime, \<^verbatim>\<open>append\<close> with that name for any one category returns normally, with
  the handler (every chain of it) unchanged and that one warning written.
\<close>

theorem unregistered_name_is_omitted_with_warning:
  "getMap h N = None \<Longrightarrow>
   Configuration_add h c N =
     (c, [''TexParser Warning: Configuration '' @ N @ '' not found! Omitted.''])
   \<and> (reachable H h \<longrightarrow>
        (MapHandler_append h [k \<mapsto> [N]] :: 'e exception + MapHandler \<times> string list) =
          Inr (h, [''TexParser Warning: Configuration '' @ N @ '' not found! Omitted.'']))"
  for H :: "('i, 'e, 'r, 'v) heap"
proof -
  assume u: "getMap h N = None"
  have a: "Configuration_add h c N =
     (c, [''TexParser Warning: Configuration '' @ N @ '' not found! Omitted.''])"
    using u by (simp add: Configuration_add_def warn_def)
  have b: "(MapHandler_append h [k \<mapsto> [N]] :: 'e exception + MapHandler \<times> string list) =
          Inr (h, [''TexParser Warning: Configuration '' @ N @ '' not found! Omitted.''])"
    if r: "reachable H h"
  proof -
    from r have "\<forall>j. configurations h j \<noteq> None" by (simp add: reachable_defined)
    from MapHandler_append_unregistered[OF this u] show ?thesis by (simp add: warn_def)
  qed
  from a b show ?thesis by simp
qed

theorem unregistered_name_is_omitted_with_warning_witness:
  "getMap example_handler ''foo'' = None
   \<and> reachable example_heap example_handler
   \<and> Configuration_add example_handler \<lparr>configuration = [0]\<rparr> ''foo'' =
       (\<lparr>configuration = [0]\<rparr>, [''TexParser Warning: Configuration foo not found! Omitted.''])
   \<and> (MapHandler_append example_handler [macro \<mapsto> [''foo'']]
        :: string exception + MapHandler \<times> string list) =
       Inr (example_handler, [''TexParser Warning: Configuration foo not found! Omitted.''])"
  using unregistered_name_is_omitted_with_warning
    [of example_handler "''foo''" "\<lparr>configuration = [0]\<rparr>" example_heap macro]
    example_handler_maps example_handler_reachable
  by simp


lemma Configuration_constructor_chain:
  "fst (Configuration_constructor h ns) =
     \<lparr>configuration = concat (map (\<lambda>n. case getMap h n of None \<Rightarrow> [] | Some m \<Rightarrow> [m]) ns)\<rparr>"
proof -
  have "configuration (fst (Configuration_constructor h ns)) =
      concat (map (\<lambda>n. case getMap h n of None \<Rightarrow> [] | Some m \<Rightarrow> [m]) ns)"
    by (simp add: Configuration_constructor_def add_all_chain)
  then show ?thesis by (cases "fst (Configuration_constructor h ns)") simp
qed

lemma configure_chain:
  "configurations (fst (configure h config)) k =
     Some \<lparr>configuration =
        concat (map (\<lambda>n. case getMap h n of None \<Rightarrow> [] | Some m \<Rightarrow> [m])
                  (case config k of None \<Rightarrow> [] | Some ns \<Rightarrow> ns))\<rparr>"
  by (simp only: configure_configurations Configuration_constructor_chain)

lemma getMap_configure: "getMap (fst (configure h config)) = getMap h"
  by (rule ext) (simp add: getMap_def configure_maps)

section \<open>Configuring replaces the chains\<close>

text \<open>
  Claim C5. After \<^verbatim>\<open>configure\<close> the chain of every category is built from the names given
  for it alone, resolved in the map store, and is empty for a category that the argument
  omits; the Configurations the handler had before play no part. After
  \<^verbatim>\<open>configure({character: ["a","b"]})\<close> and then \<^verbatim>\<open>configure({character: ["c"]})\<close>, with c
  registered, the character chain is the one map stored under c, and \<^verbatim>\<open>parse\<close>,
  \<^verbatim>\<open>contains\<close> and \<^verbatim>\<open>lookup\<close> on that category call that map only, whose name, on the
  singleton, is c.
\<close>

theorem configure_replaces_chain:
  "(maps h' = maps h \<longrightarrow>
      configurations (fst (configure h' config)) = configurations (fst (configure h config)))
   \<and> configurations (fst (configure h config)) k =
       Some \<lparr>configuration =
          concat (map (\<lambda>n. case getMap h n of None \<Rightarrow> [] | Some m \<Rightarrow> [m])
                    (case config k of None \<Rightarrow> [] | Some ns \<Rightarrow> ns))\<rparr>
   \<and> (config k = None \<longrightarrow>
        configurations (fst (configure h config)) k = Some \<lparr>configuration = []\<rparr>)
   \<and> (getMap h ''c'' = Some rc \<longrightarrow>
       (let h2 = fst (configure (fst (configure h [character \<mapsto> [''a'', ''b'']]))
                        [character \<mapsto> [''c'']])
        in configurations h2 character = Some \<lparr>configuration = [rc]\<rparr>
           \<and> snd (MapHandler_parse truthy H h2 character input) = [Call_parse rc input]
           \<and> snd (MapHandler_contains H h2 character S) = [Call_contains rc S]
           \<and> snd (MapHandler_lookup H h2 character S) =
               Call_contains rc S # (if contains (H rc) S then [Call_lookup rc S] else [])
           \<and> (reachable H h \<longrightarrow> getName (H rc) = ''c'')))"
proof -
  have a: "maps h' = maps h \<longrightarrow>
      configurations (fst (configure h' config)) = configurations (fst (configure h config))"
  proof
    assume m: "maps h' = maps h"
    show "configurations (fst (configure h' config)) = configurations (fst (configure h config))"
      by (rule ext) (simp add: configure_chain getMap_def m)
  qed
  have b: "configurations (fst (configure h config)) k =
       Some \<lparr>configuration =
          concat (map (\<lambda>n. case getMap h n of None \<Rightarrow> [] | Some m \<Rightarrow> [m])
                    (case config k of None \<Rightarrow> [] | Some ns \<Rightarrow> ns))\<rparr>"
    by (rule configure_chain)
  have c: "config k = None \<longrightarrow>
        configurations (fst (configure h config)) k = Some \<lparr>configuration = []\<rparr>"
    by (simp add: configure_chain)
  have d: "getMap h ''c'' = Some rc \<longrightarrow>
       (let h2 = fst (configure (fst (configure h [character \<mapsto> [''a'', ''b'']]))
                        [character \<mapsto> [''c'']])
        in configurations h2 character = Some \<lparr>configuration = [rc]\<rparr>
           \<and> snd (MapHandler_parse truthy H h2 character input) = [Call_parse rc input]
           \<and> snd (MapHandler_contains H h2 character S) = [Call_contains rc S]
           \<and> snd (MapHandler_lookup H h2 character S) =
               Call_contains rc S # (if contains (H rc) S then [Call_lookup rc S] else [])
           \<and> (reachable H h \<longrightarrow> getName (H rc) = ''c''))"
  proof
    assume g: "getMap h ''c'' = Some rc"
    let ?h2 = "fst (configure (fst (configure h [character \<mapsto> [''a'', ''b'']]))
                        [character \<mapsto> [''c'']])"
    have ch: "configurations ?h2 character = Some \<lparr>configuration = [rc]\<rparr>"
      by (simp add: configure_chain getMap_configure g)
    have p: "snd (MapHandler_parse truthy H ?h2 character input) = [Call_parse rc input]"
      by (simp add: MapHandler_parse_def ch Configuration_parse_def
            split: sum.splits prod.splits)
    have co: "snd (MapHandler_contains H ?h2 character S) = [Call_contains rc S]"
      by (simp add: MapHandler_contains_def ch Configuration_contains_def applicable_def)
    have lo: "snd (MapHandler_lookup H ?h2 character S) =
               Call_contains rc S # (if contains (H rc) S then [Call_lookup rc S] else [])"
      by (simp add: MapHandler_lookup_def ch Configuration_lookup_def applicable_def)
    have nm: "reachable H h \<longrightarrow> getName (H rc) = ''c''"
      using g reachable_names[of H h "''c''" rc] by (simp add: getMap_def)
    from ch p co lo nm show "let h2 = ?h2 in
        configurations h2 character = Some \<lparr>configuration = [rc]\<rparr>
           \<and> snd (MapHandler_parse truthy H h2 character input) = [Call_parse rc input]
           \<and> snd (MapHandler_contains H h2 character S) = [Call_contains rc S]
           \<and> snd (MapHandler_lookup H h2 character S) =
               Call_contains rc S # (if contains (H rc) S then [Call_lookup rc S] else [])
           \<and> (reachable H h \<longrightarrow> getName (H rc) = ''c'')"
      by (simp only: Let_def simp_thms)
  qed
  from a b c d show ?thesis by (intro conjI)
qed


theorem configure_replaces_chain_witness:
  "maps (fst (configure example_handler [character \<mapsto> [''a'', ''b'']])) = maps example_handler
   \<and> configurations (fst (configure example_handler [character \<mapsto> [''a'', ''b'']])) character =
       Some \<lparr>configuration = [0, 1]\<rparr>
   \<and> [character \<mapsto> [''c'']] environment = None
   \<and> getMap example_handler ''c'' = Some 2
   \<and> reachable example_heap example_handler
   \<and> (let h2 = fst (configure (fst (configure example_handler [character \<mapsto> [''a'', ''b'']]))
                        [character \<mapsto> [''c'']])
        in configurations h2 character = Some \<lparr>configuration = [2]\<rparr>
           \<and> configurations h2 environment = Some \<lparr>configuration = []\<rparr>
           \<and> configurations h2 =
               configurations (fst (configure example_handler [character \<mapsto> [''c'']]))
           \<and> snd (MapHandler_parse example_truthy example_heap h2 character ''x'') =
               [Call_parse 2 ''x'']
           \<and> snd (MapHandler_contains example_heap h2 character ''x'') = [Call_contains 2 ''x'']
           \<and> snd (MapHandler_lookup example_heap h2 character ''x'') =
               [Call_contains 2 ''x'', Call_lookup 2 ''x'']
           \<and> getName (example_heap 2) = ''c'')"
  using configure_replaces_chain
      [where h' = "fst (configure example_handler [character \<mapsto> [''a'', ''b'']])"
         and h = example_handler and config = "[character \<mapsto> [''c'']]"
         and k = environment and rc = 2 and truthy = example_truthy and H = example_heap
         and input = "''x''" and S = "''x''"]
    configure_replaces_chain
      [where h' = example_handler and h = example_handler
         and config = "[character \<mapsto> [''a'', ''b'']]" and k = character
         and rc = 2 and truthy = example_truthy and H = example_heap
         and input = "''x''" and S = "''x''"]
    example_handler_maps example_handler_reachable
  by (simp add: configure_maps getMap_configure Let_def example_heap_def)


lemma parse_loop_raise_origin:
  "fst (parse_loop truthy H ms input) = Inl e \<Longrightarrow> \<exists>m \<in> set ms. parse (H m) input = Inl e"
proof (induction ms)
  case Nil
  then show ?case by simp
next
  case (Cons m ms)
  then show ?case
    by (cases "absent truthy (parse (H m) input)")
       (simp_all add: parse_loop_Cons del: parse_loop.simps)
qed

lemma parse_loop_all_absent:
  "list_all (\<lambda>m. absent truthy (parse (H m) input)) ms \<Longrightarrow>
   fst (parse_loop truthy H ms input) = Inr None"
  by (induction ms) (simp_all add: parse_loop_Cons del: parse_loop.simps(2))

lemma parse_loop_skips_absent:
  "list_all (\<lambda>m. absent truthy (parse (H m) input)) pre \<Longrightarrow>
   fst (parse_loop truthy H (pre @ ms) input) = fst (parse_loop truthy H ms input)"
  by (induction pre) (simp_all add: parse_loop_Cons del: parse_loop.simps)

lemma parse_loop_raise:
  "parse (H m) input = Inl e \<Longrightarrow> fst (parse_loop truthy H (m # post) input) = Inl e"
  by simp

section \<open>Failures and absent results stay apart\<close>

text \<open>
  Claim C6. \<^verbatim>\<open>Configuration.parse\<close> throws only what a map of its chain threw; on a
  chain whose maps are all absent it returns \<^verbatim>\<open>null\<close> and throws nothing; when the maps
  before one that throws are all absent, what that map throws is what
  \<^verbatim>\<open>Configuration.parse\<close> throws. \<^verbatim>\<open>MapHandler.parse\<close> passes the outcome of the category's
  Configuration on as it is, an exception as that exception and a result as that result,
  and \<^verbatim>\<open>MapHandler.lookup\<close> and \<^verbatim>\<open>MapHandler.contains\<close> return what the Configuration
  returns; on the singleton every category has a Configuration.
\<close>

theorem failures_and_absence_kept_apart:
  "(fst (Configuration_parse truthy H this input) = Inl e \<longrightarrow>
      (\<exists>m \<in> set (configuration this). parse (H m) input = Inl e))
   \<and> (list_all (\<lambda>m. absent truthy (parse (H m) input)) (configuration this) \<longrightarrow>
        fst (Configuration_parse truthy H this input) = Inr None)
   \<and> (configuration this = pre @ m # post \<longrightarrow>
        list_all (\<lambda>m. absent truthy (parse (H m) input)) pre \<longrightarrow>
        parse (H m) input = Inl e \<longrightarrow>
        fst (Configuration_parse truthy H this input) = Inl e)
   \<and> (configurations h category = Some this \<longrightarrow>
        fst (MapHandler_parse truthy H h category input) =
          (case fst (Configuration_parse truthy H this input) of
             Inl e \<Rightarrow> Inl (Thrown e)
           | Inr result \<Rightarrow> Inr result)
        \<and> fst (MapHandler_lookup H h category S) = Inr (fst (Configuration_lookup H this S))
        \<and> fst (MapHandler_contains H h category S) = Inr (fst (Configuration_contains H this S)))
   \<and> (reachable H h \<longrightarrow> configurations h category \<noteq> None)"
proof -
  have a: "fst (Configuration_parse truthy H this input) = Inl e \<longrightarrow>
      (\<exists>m \<in> set (configuration this). parse (H m) input = Inl e)"
    unfolding Configuration_parse_def by (blast dest: parse_loop_raise_origin)
  have b: "list_all (\<lambda>m. absent truthy (parse (H m) input)) (configuration this) \<longrightarrow>
        fst (Configuration_parse truthy H this input) = Inr None"
    unfolding Configuration_parse_def by (blast intro: parse_loop_all_absent)
  have c: "configuration this = pre @ m # post \<longrightarrow>
        list_all (\<lambda>m. absent truthy (parse (H m) input)) pre \<longrightarrow>
        parse (H m) input = Inl e \<longrightarrow>
        fst (Configuration_parse truthy H this input) = Inl e"
    unfolding Configuration_parse_def
    by (simp add: parse_loop_skips_absent parse_loop_raise del: parse_loop.simps)
  have d: "configurations h category = Some this \<longrightarrow>
        fst (MapHandler_parse truthy H h category input) =
          (case fst (Configuration_parse truthy H this input) of
             Inl e \<Rightarrow> Inl (Thrown e)
           | Inr result \<Rightarrow> Inr result)
        \<and> fst (MapHandler_lookup H h category S) = Inr (fst (Configuration_lookup H this S))
        \<and> fst (MapHandler_contains H h category S) = Inr (fst (Configuration_contains H this S))"
    by (simp add: MapHandler_parse_def MapHandler_lookup_def MapHandler_contains_def
          split: prod.splits sum.splits)
  have e: "reachable H h \<longrightarrow> configurations h category \<noteq> None"
    by (simp add: reachable_defined)
  from a b c d e show ?thesis by (intro conjI)
qed

lemma example_raising_resolves_c: "getMap (register example_heap example_handler 3) ''c'' = Some 3"
  by (simp add: getMap_def register_def example_name3)

lemma example_raising_resolves_a: "getMap (register example_heap example_handler 3) ''a'' = Some 0"
  using example_handler_maps
  by (simp add: getMap_def register_def example_name3)

lemma example_handler_raising_chain:
  "configurations example_handler_raising character = Some \<lparr>configuration = [0, 3]\<rparr>"
  by (simp add: example_handler_raising_def configure_chain
        example_raising_resolves_c example_raising_resolves_a)

lemma example_parse0: "absent example_truthy (parse (example_heap 0) i)"
  by (simp add: example_heap_def absent_def is_truthy_def)

lemma example_parse3: "parse (example_heap 3) i = Inl ''malformed''"
  by (simp add: example_heap_def)

lemma example_contains0: "contains (example_heap 0) ''x''"
  by (simp add: example_heap_def)

lemma example_lookup0: "lookup (example_heap 0) s = None"
  by (simp add: example_heap_def)

lemma example_handler_raising_reachable: "reachable example_heap example_handler_raising"
  unfolding example_handler_raising_def
  by (rule reachable.configured, rule reachable.registered, rule example_handler_reachable)

theorem failures_and_absence_kept_apart_witness:
  "configuration \<lparr>configuration = [0, 3]\<rparr> = [0] @ 3 # []
   \<and> list_all (\<lambda>m. absent example_truthy (parse (example_heap m) ''x'')) [0]
   \<and> parse (example_heap 3) ''x'' = Inl ''malformed''
   \<and> fst (Configuration_parse example_truthy example_heap \<lparr>configuration = [0, 3]\<rparr> ''x'') =
       Inl ''malformed''
   \<and> reachable example_heap example_handler_raising
   \<and> configurations example_handler_raising character = Some \<lparr>configuration = [0, 3]\<rparr>
   \<and> fst (MapHandler_parse example_truthy example_heap example_handler_raising character ''x'') =
       Inl (Thrown ''malformed'')
   \<and> fst (MapHandler_lookup example_heap example_handler_raising character ''x'') = Inr None
   \<and> fst (MapHandler_contains example_heap example_handler_raising character ''x'') = Inr True
   \<and> list_all (\<lambda>m. absent example_truthy (parse (example_heap m) ''x'')) [0, 0]
   \<and> fst (Configuration_parse example_truthy example_heap \<lparr>configuration = [0, 0]\<rparr> ''x'') =
       Inr None"
proof -
  note raising = failures_and_absence_kept_apart
      [where truthy = example_truthy and H = example_heap
         and this = "\<lparr>configuration = [0, 3]\<rparr>" and input = "''x''" and e = "''malformed''"
         and pre = "[0]" and m = 3 and post = "[]" and h = example_handler_raising
         and category = character and S = "''x''"]
  note silent = failures_and_absence_kept_apart
      [where truthy = example_truthy and H = example_heap
         and this = "\<lparr>configuration = [0, 0]\<rparr>" and input = "''x''" and e = "''malformed''"
         and pre = "[0]" and m = 3 and post = "[]" and h = example_handler_raising
         and category = character and S = "''x''"]
  have h1: "configuration \<lparr>configuration = [0, 3]\<rparr> = [0] @ 3 # []" by simp
  have h2: "list_all (\<lambda>m. absent example_truthy (parse (example_heap m) ''x'')) [0]"
    by (simp add: example_parse0)
  have h3: "parse (example_heap 3) ''x'' = Inl ''malformed''" by (rule example_parse3)
  have p: "fst (Configuration_parse example_truthy example_heap \<lparr>configuration = [0, 3]\<rparr> ''x'') =
       Inl ''malformed''"
    by (rule raising[THEN conjunct2, THEN conjunct2, THEN conjunct1, rule_format, OF h1 h2 h3])
  note handler = raising[THEN conjunct2, THEN conjunct2, THEN conjunct2, THEN conjunct1,
      rule_format, OF example_handler_raising_chain]
  have hp: "fst (MapHandler_parse example_truthy example_heap example_handler_raising character ''x'') =
       Inl (Thrown ''malformed'')"
    using handler[THEN conjunct1] by (simp only: p sum.case)
  have hl: "fst (MapHandler_lookup example_heap example_handler_raising character ''x'') = Inr None"
    using handler[THEN conjunct2, THEN conjunct1]
    by (simp add: Configuration_lookup_def applicable_def example_contains0 example_lookup0)
  have hc: "fst (MapHandler_contains example_heap example_handler_raising character ''x'') = Inr True"
    using handler[THEN conjunct2, THEN conjunct2]
    by (simp add: Configuration_contains_def applicable_def example_contains0)
  have s1: "list_all (\<lambda>m. absent example_truthy (parse (example_heap m) ''x'')) [0, 0]"
    by (simp add: example_parse0)
  have s2: "fst (Configuration_parse example_truthy example_heap \<lparr>configuration = [0, 0]\<rparr> ''x'') =
       Inr None"
    by (rule silent[THEN conjunct2, THEN conjunct1, rule_format]) (simp add: example_parse0)
  from h1 h2 h3 p example_handler_raising_reachable example_handler_raising_chain hp hl hc s1 s2
  show ?thesis by (intro conjI)
qed

section \<open>Order and duplicates\<close>

text \<open>
  Claim C7. The chain that the constructor of \<^verbatim>\<open>Configuration\<close> builds is the registered
  names of its argument, each resolved in the map store, in the order given and as often
  as given; adding names to a chain puts their maps after the entries it has, in the
  order added, and adding one registered name twice gives two entries. \<^verbatim>\<open>parse\<close> calls the
  entries in chain order up to the first that is not absent, so on a chain of one map
  twice, absent on the input, it calls that map twice.
\<close>

theorem chain_keeps_order_and_duplicates:
  "configuration (fst (Configuration_constructor h names)) =
     concat (map (\<lambda>n. case getMap h n of None \<Rightarrow> [] | Some m \<Rightarrow> [m]) names)
   \<and> configuration (fst (add_all h c names)) =
       configuration c @ concat (map (\<lambda>n. case getMap h n of None \<Rightarrow> [] | Some m \<Rightarrow> [m]) names)
   \<and> (getMap h n = Some m \<longrightarrow>
        configuration (fst (Configuration_add h c n)) = configuration c @ [m]
        \<and> configuration (fst (Configuration_add h (fst (Configuration_add h c n)) n)) =
            configuration c @ [m, m])
   \<and> snd (Configuration_parse truthy H this input) =
       map (\<lambda>m. Call_parse m input)
         (takeWhile (\<lambda>m. absent truthy (parse (H m) input)) (configuration this)) @
       (case find (\<lambda>m. \<not> absent truthy (parse (H m) input)) (configuration this) of
          None \<Rightarrow> []
        | Some m \<Rightarrow> [Call_parse m input])
   \<and> (absent truthy (parse (H m) input) \<longrightarrow>
        snd (Configuration_parse truthy H \<lparr>configuration = [m, m]\<rparr> input) =
          [Call_parse m input, Call_parse m input])"
proof -
  have a: "configuration (fst (Configuration_constructor h names)) =
     concat (map (\<lambda>n. case getMap h n of None \<Rightarrow> [] | Some m \<Rightarrow> [m]) names)"
    by (simp add: Configuration_constructor_def add_all_chain)
  have b: "configuration (fst (add_all h c names)) =
       configuration c @ concat (map (\<lambda>n. case getMap h n of None \<Rightarrow> [] | Some m \<Rightarrow> [m]) names)"
    by (rule add_all_chain)
  have c: "getMap h n = Some m \<longrightarrow>
        configuration (fst (Configuration_add h c n)) = configuration c @ [m]
        \<and> configuration (fst (Configuration_add h (fst (Configuration_add h c n)) n)) =
            configuration c @ [m, m]"
    by (simp add: Configuration_add_def)
  have d: "snd (Configuration_parse truthy H this input) =
       map (\<lambda>m. Call_parse m input)
         (takeWhile (\<lambda>m. absent truthy (parse (H m) input)) (configuration this)) @
       (case find (\<lambda>m. \<not> absent truthy (parse (H m) input)) (configuration this) of
          None \<Rightarrow> []
        | Some m \<Rightarrow> [Call_parse m input])"
    unfolding Configuration_parse_def by (rule parse_loop_snd)
  have e: "absent truthy (parse (H m) input) \<longrightarrow>
        snd (Configuration_parse truthy H \<lparr>configuration = [m, m]\<rparr> input) =
          [Call_parse m input, Call_parse m input]"
    by (simp add: Configuration_parse_def parse_loop_snd del: parse_loop.simps)
  from a b c d e show ?thesis by (intro conjI)
qed

theorem chain_keeps_order_and_duplicates_witness:
  "getMap example_handler ''a'' = Some 0
   \<and> configuration (fst (Configuration_add example_handler
        (fst (Configuration_add example_handler \<lparr>configuration = [1]\<rparr> ''a'')) ''a'')) = [1, 0, 0]
   \<and> configuration (fst (Configuration_constructor example_handler
        [''b'', ''a'', ''foo'', ''b'', ''a''])) = [1, 0, 1, 0]
   \<and> absent example_truthy (parse (example_heap 0) ''x'')
   \<and> snd (Configuration_parse example_truthy example_heap \<lparr>configuration = [0, 0]\<rparr> ''x'') =
       [Call_parse 0 ''x'', Call_parse 0 ''x'']"
  using chain_keeps_order_and_duplicates
      [where h = example_handler and names = "[''b'', ''a'', ''foo'', ''b'', ''a'']"
         and c = "\<lparr>configuration = [1]\<rparr>" and n = "''a''" and m = 0
         and truthy = example_truthy and H = example_heap
         and this = "\<lparr>configuration = [0, 0]\<rparr>" and input = "''x''"]
    example_handler_maps
  by (simp add: example_parse0)

section \<open>Every category has a Configuration\<close>

text \<open>
  Claim C10. At every point of the singleton's lifetime each of the four categories has
  a Configuration, so \<^verbatim>\<open>MapHandler.parse\<close>, \<^verbatim>\<open>lookup\<close> and \<^verbatim>\<open>contains\<close> never throw the
  \<^verbatim>\<open>TypeError\<close> of a missing one; the same holds after any further \<^verbatim>\<open>configure\<close>, and
  \<^verbatim>\<open>append\<close> returns normally. The handler that \<^verbatim>\<open>getInstance\<close> constructs has an empty
  chain for each category.
\<close>

theorem every_category_has_a_Configuration:
  "reachable H h \<Longrightarrow>
   (\<forall>k. configurations h k \<noteq> None)
   \<and> fst (MapHandler_parse truthy H h category input) \<noteq> Inl TypeError
   \<and> fst (MapHandler_lookup H h category S) \<noteq> Inl TypeError
   \<and> fst (MapHandler_contains H h category S) \<noteq> Inl TypeError
   \<and> (\<forall>k. configurations (fst (configure h config)) k \<noteq> None)
   \<and> (\<exists>h' w. (MapHandler_append h config :: 'e exception + MapHandler \<times> string list) = Inr (h', w))
   \<and> reachable H (fst (getInstance None))
   \<and> (\<forall>k. configurations (fst (getInstance None)) k = Some \<lparr>configuration = []\<rparr>)"
  for H :: "('i, 'e, 'r, 'v) heap"
proof -
  assume r: "reachable H h"
  then have d: "\<forall>k. configurations h k \<noteq> None" by (simp add: reachable_defined)
  then obtain c where c: "configurations h category = Some c" by auto
  have p: "fst (MapHandler_parse truthy H h category input) \<noteq> Inl TypeError"
    by (simp add: MapHandler_parse_def c split: prod.splits sum.splits)
  have l: "fst (MapHandler_lookup H h category S) \<noteq> Inl TypeError"
    by (simp add: MapHandler_lookup_def c split: prod.splits)
  have co: "fst (MapHandler_contains H h category S) \<noteq> Inl TypeError"
    by (simp add: MapHandler_contains_def c split: prod.splits)
  have cf: "\<forall>k. configurations (fst (configure h config)) k \<noteq> None"
    by (simp add: configure_configurations)
  have ap: "\<exists>h' w. (MapHandler_append h config :: 'e exception + MapHandler \<times> string list) = Inr (h', w)"
    by (rule MapHandler_append_total[OF d])
  have g: "reachable H (fst (getInstance None))"
    by (simp add: getInstance_def reachable.constructed)
  have e: "\<forall>k. configurations (fst (getInstance None)) k = Some \<lparr>configuration = []\<rparr>"
    by (simp add: getInstance_def MapHandler_constructor_def configure_chain)
  from d p l co cf ap g e show ?thesis by (intro conjI)
qed

theorem every_category_has_a_Configuration_witness:
  "reachable example_heap example_handler_raising
   \<and> configurations example_handler_raising character = Some \<lparr>configuration = [0, 3]\<rparr>
   \<and> configurations example_handler_raising macro \<noteq> None
   \<and> fst (MapHandler_parse example_truthy example_heap example_handler_raising macro ''x'')
       \<noteq> Inl TypeError
   \<and> fst (MapHandler_lookup example_heap example_handler_raising macro ''x'') \<noteq> Inl TypeError
   \<and> fst (MapHandler_contains example_heap example_handler_raising macro ''x'') \<noteq> Inl TypeError"
  using every_category_has_a_Configuration
      [where H = example_heap and h = example_handler_raising and truthy = example_truthy
         and category = macro and input = "''x''" and S = "''x''" and config = "Map.empty"]
    example_handler_raising_reachable example_handler_raising_chain
  by simp

section \<open>Node defaults and flags\<close>

lemma new_node_fst:
  "fst (new_node N B st c) =
     \<lparr>node_class = c, default_copy = next_addr st, properties = Suc (next_addr st)\<rparr>"
  by (simp add: new_node_def alloc_def)

lemma new_node_tables:
  "tables (snd (new_node N B st c)) =
     (tables st)(next_addr st := tables st (defaults_addr c),
                 Suc (next_addr st) := properties_initialiser N B c)"
  by (simp add: new_node_def alloc_def)

lemma new_node_next: "next_addr (snd (new_node N B st c)) = Suc (Suc (next_addr st))"
  by (simp add: new_node_def alloc_def)

lemma defaults_addr_less: "defaults_addr c < Suc (Suc 0)"
  by (cases c) simp_all

lemma module_store_tables: "tables (module_store N B) (defaults_addr c) = defaults N B c"
  by (cases c) (simp_all add: module_store_def)

lemma module_store_next: "next_addr (module_store N B) = Suc (Suc 0)"
  by (simp add: module_store_def)

text \<open>
  Claim C8. A new \<^verbatim>\<open>MmlAnnotation\<close> has a property bag with the five defaults that
  \<^verbatim>\<open>MmlAnnotationXML\<close> declares, \<^verbatim>\<open>isChars: true\<close>, and every other entry of the table
  \<^verbatim>\<open>MmlAnnotationXML.defaults\<close>. A second instance has the same bag, and setting any
  entry of either table of the first instance changes the first instance's bag, not the
  second's, and no static \<^verbatim>\<open>defaults\<close> table.
\<close>

theorem MmlAnnotation_property_bag:
  "(let r1 = new_node N B (module_store N B) MmlAnnotation; n1 = fst r1; st1 = snd r1;
        r2 = new_node N B st1 MmlAnnotation; n2 = fst r2; st2 = snd r2
    in property_bag st1 n1 ''definitionUrl'' = Some P_null
       \<and> property_bag st1 n1 ''encoding'' = Some P_null
       \<and> property_bag st1 n1 ''cd'' = Some (P_string ''mathmlkeys'')
       \<and> property_bag st1 n1 ''name'' = Some (P_string [])
       \<and> property_bag st1 n1 ''src'' = Some P_null
       \<and> property_bag st1 n1 ''isChars'' = Some (P_bool True)
       \<and> (k \<noteq> ''isChars'' \<longrightarrow> property_bag st1 n1 k = defaults N B MmlAnnotationXML k)
       \<and> property_bag st2 n2 = property_bag st1 n1
       \<and> property_bag st2 n1 = property_bag st1 n1
       \<and> property_bag (set_entry st2 (properties n1) key v) n1 key = Some v
       \<and> property_bag (set_entry st2 (properties n1) key v) n2 = property_bag st2 n2
       \<and> property_bag (set_entry st2 (default_copy n1) key v) n2 = property_bag st2 n2
       \<and> tables (set_entry st2 (properties n1) key v) (defaults_addr c) = defaults N B c
       \<and> tables (set_entry st2 (default_copy n1) key v) (defaults_addr c) = defaults N B c)"
proof -
  let ?r1 = "new_node N B (module_store N B) MmlAnnotation"
  let ?n1 = "fst ?r1"
  let ?st1 = "snd ?r1"
  let ?r2 = "new_node N B ?st1 MmlAnnotation"
  let ?n2 = "fst ?r2"
  let ?st2 = "snd ?r2"
  let ?bag = "(MmlAnnotationXML_defaults N)(''isChars'' \<mapsto> P_bool True)"
  have n1: "?n1 = \<lparr>node_class = MmlAnnotation, default_copy = 2, properties = 3\<rparr>"
    by (simp add: new_node_fst module_store_next)
  have n2: "?n2 = \<lparr>node_class = MmlAnnotation, default_copy = 4, properties = 5\<rparr>"
    by (simp add: new_node_fst new_node_next module_store_next)
  have t1: "tables ?st1 =
      (tables (module_store N B))(2 := MmlAnnotationXML_defaults N,
                                  3 := [''isChars'' \<mapsto> P_bool True])"
    using module_store_tables[of N B MmlAnnotation]
    by (simp add: new_node_tables module_store_next numeral_2_eq_2 numeral_3_eq_3)
  have t2: "tables ?st2 =
      (tables ?st1)(4 := MmlAnnotationXML_defaults N, 5 := [''isChars'' \<mapsto> P_bool True])"
    by (simp add: new_node_tables new_node_next module_store_next t1 module_store_def
          eval_nat_numeral)
  have b1: "property_bag ?st1 ?n1 = ?bag"
    by (simp add: property_bag_def n1 t1)
  have b2: "property_bag ?st2 ?n2 = ?bag"
    by (simp add: property_bag_def n2 t2)
  have b21: "property_bag ?st2 ?n1 = ?bag"
    by (simp add: property_bag_def n1 t2 t1)
  have m1: "property_bag (set_entry ?st2 (properties ?n1) key v) ?n1 key = Some v"
    by (simp add: property_bag_def set_entry_def n1)
  have m2: "property_bag (set_entry ?st2 (properties ?n1) key v) ?n2 = ?bag"
    by (simp add: property_bag_def set_entry_def n1 n2 t2)
  have m3: "property_bag (set_entry ?st2 (default_copy ?n1) key v) ?n2 = ?bag"
    by (simp add: property_bag_def set_entry_def n1 n2 t2)
  have s: "tables ?st2 (defaults_addr c) = defaults N B c"
    using defaults_addr_less[of c] module_store_tables[of N B c] by (simp add: t2 t1)
  have s1: "tables (set_entry ?st2 (properties ?n1) key v) (defaults_addr c) = defaults N B c"
    using defaults_addr_less[of c] s by (simp add: set_entry_def n1)
  have s2: "tables (set_entry ?st2 (default_copy ?n1) key v) (defaults_addr c) = defaults N B c"
    using defaults_addr_less[of c] s by (simp add: set_entry_def n1)
  have e: "?bag ''definitionUrl'' = Some P_null \<and> ?bag ''encoding'' = Some P_null
      \<and> ?bag ''cd'' = Some (P_string ''mathmlkeys'') \<and> ?bag ''name'' = Some (P_string [])
      \<and> ?bag ''src'' = Some P_null \<and> ?bag ''isChars'' = Some (P_bool True)
      \<and> (k \<noteq> ''isChars'' \<longrightarrow> ?bag k = defaults N B MmlAnnotationXML k)"
    by (simp add: MmlAnnotationXML_defaults_def)
  show ?thesis
    unfolding Let_def b1 b2 b21 m2 m3 s1 s2 using e m1 by simp
qed

theorem MmlAnnotation_property_bag_witness:
  "''mathcolor'' \<noteq> ''isChars''
   \<and> property_bag (snd (new_node example_base example_base
          (module_store example_base example_base) MmlAnnotation))
        (fst (new_node example_base example_base
          (module_store example_base example_base) MmlAnnotation)) ''mathcolor'' =
      Some (P_string ''inherit'')"
  using MmlAnnotation_property_bag
    [where N = example_base and B = example_base and k = "''mathcolor''" and key = "''cd''"
       and v = P_null and c = MmlAnnotation]
  by (simp add: Let_def MmlAnnotationXML_defaults_def example_base_def)

text \<open>
  Claim C9. \<^verbatim>\<open>notParent\<close> of \<^verbatim>\<open>MmlSemantics\<close> is true and \<^verbatim>\<open>linebreakContainer\<close> of
  \<^verbatim>\<open>MmlAnnotationXML\<close> is true, whatever the abstract classes declare.
\<close>

theorem structural_flags:
  "notParent N B MmlSemantics = True \<and> linebreakContainer N B MmlAnnotationXML = True"
  by simp

end
